theory Spec2Isabelle
  imports Complex_Main
begin

section \<open>Doubles\<close>

text \<open>
  The numbers of \<^verbatim>\<open>src/func.cc\<close> are IEEE-754 binary64 values. A double is NaN or an
  ordered value: a finite real or one of the two infinities. The ordered values form a
  linear order; the two zeros of IEEE, which compare equal, are the one \<open>Finite 0\<close>.
\<close>

datatype extended = MinusInf | Finite real | PlusInf

instantiation extended :: linorder
begin

fun less_eq_extended :: "extended \<Rightarrow> extended \<Rightarrow> bool" where
  "less_eq_extended MinusInf b = True"
| "less_eq_extended (Finite x) MinusInf = False"
| "less_eq_extended (Finite x) (Finite y) = (x \<le> y)"
| "less_eq_extended (Finite x) PlusInf = True"
| "less_eq_extended PlusInf PlusInf = True"
| "less_eq_extended PlusInf b = False"

definition less_extended :: "extended \<Rightarrow> extended \<Rightarrow> bool" where
  "less_extended a b \<longleftrightarrow> a \<le> b \<and> \<not> b \<le> a"

instance
proof
  fix a b c :: extended
  show "a < b \<longleftrightarrow> a \<le> b \<and> \<not> b \<le> a"
    by (simp add: less_extended_def)
  show "a \<le> a"
    by (cases a) simp_all
  show "a \<le> b \<Longrightarrow> b \<le> c \<Longrightarrow> a \<le> c"
    by (cases a; cases b; cases c) simp_all
  show "a \<le> b \<Longrightarrow> b \<le> a \<Longrightarrow> a = b"
    by (cases a; cases b) simp_all
  show "a \<le> b \<or> b \<le> a"
    by (cases a; cases b) auto
qed

end

datatype double = NaN | Num extended

text \<open>
  The comparisons of C on doubles: every comparison with NaN is false, the other ones
  are exact.
\<close>

fun dless :: "double \<Rightarrow> double \<Rightarrow> bool" where
  "dless (Num a) (Num b) = (a < b)"
| "dless a b = False"

fun dle :: "double \<Rightarrow> double \<Rightarrow> bool" where
  "dle (Num a) (Num b) = (a \<le> b)"
| "dle a b = False"

fun deq :: "double \<Rightarrow> double \<Rightarrow> bool" where
  "deq (Num a) (Num b) = (a = b)"
| "deq a b = False"



definition lit :: "real \<Rightarrow> double" where
  "lit x = Num (Finite x)"

subsection \<open>Rounding\<close>

text \<open>
  An arithmetic operation on finite operands returns the rounded exact result. The
  rounding is the parameter \<open>rnd\<close> of every operation that rounds. \<open>round_double\<close> is
  the rounding of binary64 to the nearest value, ties to even: 53 significant bits, the
  quantum \<open>2 ^ (e - 52)\<close> at the binary exponent \<open>e\<close> of the argument, not below
  \<open>2 ^ - 1074\<close>, and an infinity from \<open>2 ^ 1024\<close> on. \<open>lit\<close> as a rounding is exact
  arithmetic.
\<close>

definition pow2 :: "int \<Rightarrow> real" where
  "pow2 e = (if 0 \<le> e then 2 ^ nat e else 1 / 2 ^ nat (- e))"

definition exponent :: "real \<Rightarrow> int" where
  "exponent x = \<lfloor>log 2 \<bar>x\<bar>\<rfloor>"

definition nearest_even :: "real \<Rightarrow> int" where
  "nearest_even y =
     (let f = \<lfloor>y\<rfloor>; r = y - of_int f
      in if r < 1 / 2 then f else if 1 / 2 < r then f + 1 else if even f then f else f + 1)"

definition round_double :: "real \<Rightarrow> double" where
  "round_double x =
     (if x = 0 then lit 0
      else
        let q = pow2 (max (exponent x) (- 1022) - 52);
            y = of_int (nearest_even (x / q)) * q
        in if pow2 1024 \<le> \<bar>y\<bar> then (if 0 < x then Num PlusInf else Num MinusInf)
           else lit y)"

subsection \<open>Arithmetic\<close>

fun dneg :: "double \<Rightarrow> double" where
  "dneg NaN = NaN"
| "dneg (Num MinusInf) = Num PlusInf"
| "dneg (Num (Finite x)) = Num (Finite (- x))"
| "dneg (Num PlusInf) = Num MinusInf"

fun dadd :: "(real \<Rightarrow> double) \<Rightarrow> double \<Rightarrow> double \<Rightarrow> double" where
  "dadd rnd NaN b = NaN"
| "dadd rnd (Num a) NaN = NaN"
| "dadd rnd (Num (Finite x)) (Num (Finite y)) = rnd (x + y)"
| "dadd rnd (Num (Finite x)) (Num b) = Num b"
| "dadd rnd (Num PlusInf) (Num MinusInf) = NaN"
| "dadd rnd (Num MinusInf) (Num PlusInf) = NaN"
| "dadd rnd (Num a) (Num b) = Num a"

definition dsub :: "(real \<Rightarrow> double) \<Rightarrow> double \<Rightarrow> double \<Rightarrow> double" where
  "dsub rnd a b = dadd rnd a (dneg b)"

text \<open>The sign of an ordered value that is not zero decides the sign of an infinite result.\<close>

definition negative :: "extended \<Rightarrow> bool" where
  "negative a = (a < Finite 0)"

fun dmul :: "(real \<Rightarrow> double) \<Rightarrow> double \<Rightarrow> double \<Rightarrow> double" where
  "dmul rnd NaN b = NaN"
| "dmul rnd (Num a) NaN = NaN"
| "dmul rnd (Num (Finite x)) (Num (Finite y)) = rnd (x * y)"
| "dmul rnd (Num a) (Num b) =
     (if a = Finite 0 \<or> b = Finite 0 then NaN
      else if negative a = negative b then Num PlusInf else Num MinusInf)"

fun ddiv :: "(real \<Rightarrow> double) \<Rightarrow> double \<Rightarrow> double \<Rightarrow> double" where
  "ddiv rnd NaN b = NaN"
| "ddiv rnd (Num a) NaN = NaN"
| "ddiv rnd (Num (Finite x)) (Num (Finite y)) =
     (if y \<noteq> 0 then rnd (x / y)
      else if x = 0 then NaN
      else if x < 0 then Num MinusInf else Num PlusInf)"
| "ddiv rnd (Num (Finite x)) (Num b) = Num (Finite 0)"
| "ddiv rnd (Num a) (Num (Finite y)) =
     (if negative a = (y < 0) then Num PlusInf else Num MinusInf)"
| "ddiv rnd (Num a) (Num b) = NaN"

text \<open>
  \<^verbatim>\<open>sqrt\<close> is correctly rounded, and exact at zero. \<^verbatim>\<open>fabs\<close>, \<^verbatim>\<open>floor\<close>, \<^verbatim>\<open>ceil\<close> and
  \<^verbatim>\<open>round\<close> (halves away from zero) are exact on every double.
\<close>

fun dsqrt :: "(real \<Rightarrow> double) \<Rightarrow> double \<Rightarrow> double" where
  "dsqrt rnd NaN = NaN"
| "dsqrt rnd (Num MinusInf) = NaN"
| "dsqrt rnd (Num PlusInf) = Num PlusInf"
| "dsqrt rnd (Num (Finite x)) =
     (if x < 0 then NaN else if x = 0 then Num (Finite 0) else rnd (sqrt x))"





subsection \<open>Conversions of a double to an integer type\<close>

text \<open>
  C++ truncates towards zero, and the behaviour is undefined when the truncated value
  does not fit the destination type, or when there is none (NaN, an infinity): \<open>None\<close>
  here. \<^verbatim>\<open>int\<close> and \<^verbatim>\<open>unsigned int\<close> have 32 bits.
\<close>

definition trunc :: "real \<Rightarrow> int" where
  "trunc x = (if x \<ge> 0 then \<lfloor>x\<rfloor> else \<lceil>x\<rceil>)"

fun static_cast_int :: "double \<Rightarrow> int option" where
  "static_cast_int (Num (Finite x)) =
     (if - (2 ^ 31) \<le> trunc x \<and> trunc x < 2 ^ 31 then Some (trunc x) else None)"
| "static_cast_int d = None"

fun static_cast_uint :: "double \<Rightarrow> nat option" where
  "static_cast_uint (Num (Finite x)) =
     (if 0 \<le> trunc x \<and> trunc x < 2 ^ 32 then Some (nat (trunc x)) else None)"
| "static_cast_uint d = None"

section \<open>The value model\<close>

text \<open>
  A string is the sequence of its Unicode code points, which is what \<^verbatim>\<open>g_utf8_strlen\<close>,
  \<^verbatim>\<open>g_utf8_offset_to_pointer\<close> and \<^verbatim>\<open>g_utf8_get_char\<close> of the source count and read.
\<close>

type_synonym glyph = nat

text \<open>
  Modelled from the spec: the \<^verbatim>\<open>Value\<close> class (value.h, value.cc) is not among the source
  files. The spec gives the closed variant Undefined, Number (a double, NaN and the
  infinities included), String, Vector-of-Value.
\<close>

datatype Value = Undefined | Number double | String "glyph list" | Vector "Value list"

datatype ValueType = UNDEFINED | NUMBER | STRING | VECTOR

fun vtype :: "Value \<Rightarrow> ValueType" where
  "vtype Undefined = UNDEFINED"
| "vtype (Number x) = NUMBER"
| "vtype (String s) = STRING"
| "vtype (Vector v) = VECTOR"

text \<open>
  Modelled from the spec: \<^verbatim>\<open>Value::getDouble\<close> succeeds on a Number only.
\<close>

fun getDouble :: "Value \<Rightarrow> double option" where
  "getDouble (Number x) = Some x"
| "getDouble v = None"

text \<open>
  Modelled from the spec: \<^verbatim>\<open>Value::toDouble\<close> is the numeric conversion, defined on a
  Number only. Every use in the model is on a Number: behind the test of the variant
  that the source makes, or, for the two conversions that \<^verbatim>\<open>builtin_search\<close> makes without
  a test, behind the test of \<open>uint_arg\<close> below.
\<close>

fun toDouble :: "Value \<Rightarrow> double" where
  "toDouble (Number x) = x"

text \<open>
  Modelled from the spec: \<^verbatim>\<open>Value::toVector\<close> is the vector view of a Vector. The source
  uses \<^verbatim>\<open>x.toVector().size()\<close> as a guard on values of any variant (in \<^verbatim>\<open>builtin_search\<close> and
  \<^verbatim>\<open>builtin_lookup\<close>), so the view of a non-Vector is the empty sequence.
\<close>

fun toVector :: "Value \<Rightarrow> Value list" where
  "toVector (Vector v) = v"
| "toVector x = []"

text \<open>
  Modelled from the spec: \<^verbatim>\<open>Value::getVec2\<close> and \<^verbatim>\<open>Value::getVec3\<close> succeed only when the
  value is a Vector of exactly two, or exactly three, Numbers.
\<close>

definition getVec2 :: "Value \<Rightarrow> (double \<times> double) option" where
  "getVec2 v =
     (if vtype v \<noteq> VECTOR then None
      else if length (toVector v) \<noteq> 2 then None
      else (case getDouble (toVector v ! 0) of
              None \<Rightarrow> None
            | Some x \<Rightarrow> (case getDouble (toVector v ! 1) of
                          None \<Rightarrow> None
                        | Some y \<Rightarrow> Some (x, y))))"


fun glyphs_less :: "glyph list \<Rightarrow> glyph list \<Rightarrow> bool" where
  "glyphs_less [] [] = False"
| "glyphs_less [] (b # bs) = True"
| "glyphs_less (a # as) [] = False"
| "glyphs_less (a # as) (b # bs) = (a < b \<or> (a = b \<and> glyphs_less as bs))"

text \<open>
  Modelled from the spec: \<^verbatim>\<open>Value::operator<\<close> is defined between values of the same
  variant, two Numbers or two Strings; every other pair is incomparable.
\<close>

fun value_less :: "Value \<Rightarrow> Value \<Rightarrow> bool" where
  "value_less (Number a) (Number b) = dless a b"
| "value_less (String s) (String t) = glyphs_less s t"
| "value_less a b = False"

text \<open>
  Modelled from the spec: \<^verbatim>\<open>Value::operator==\<close> is defined between values of the same
  variant: two Numbers are compared as doubles (NaN equals nothing), two Strings by
  their code points, two Vectors element by element.
\<close>

fun value_eq :: "Value \<Rightarrow> Value \<Rightarrow> bool" and values_eq :: "Value list \<Rightarrow> Value list \<Rightarrow> bool" where
  "value_eq Undefined Undefined = True"
| "value_eq (Number a) (Number b) = deq a b"
| "value_eq (String s) (String t) = (s = t)"
| "value_eq (Vector xs) (Vector ys) = values_eq xs ys"
| "value_eq a b = False"
| "values_eq [] [] = True"
| "values_eq (x # xs) (y # ys) = (value_eq x y \<and> values_eq xs ys)"
| "values_eq xs ys = False"

text \<open>
  The diagnostic sink: \<^verbatim>\<open>PRINT\<close> takes a fixed message; the \<^verbatim>\<open>PRINTB\<close> formats of
  \<^verbatim>\<open>search\<close> and \<^verbatim>\<open>parent_module\<close> carry the value they print. A builtin returns its value
  together with the messages it has emitted, in order.
\<close>

datatype diag =
  PRINT string
| SearchTermNotFound Value
| SearchNonePerformed Value
| NegativeParentModuleIndex int
| ParentModuleIndexTooGreat int

type_synonym outcome = "Value \<times> diag list"

text \<open>
  What the source does not answer with a value is a fault: an index beyond the end of a
  \<^verbatim>\<open>std::vector\<close>, a conversion of a double to an integer type that cannot hold the
  truncated value, and a read through a pointer into a destroyed \<^verbatim>\<open>std::string\<close>, all
  three undefined behaviour of C++, and the failure of \<^verbatim>\<open>toDouble\<close> on a value that is not
  a Number.
\<close>

datatype fault = OutOfBounds | CastOutOfRange | DanglingPointer | NotANumber





section \<open>abs and sign\<close>



section \<open>rands\<close>

text \<open>
  The two generators are global variables of the source. The generator type
  \<^verbatim>\<open>boost::mt19937\<close> and the sampler \<^verbatim>\<open>boost::uniform_real\<close> belong to a library: the state
  type \<open>'g\<close>, the function \<open>seed\<close> that \<^verbatim>\<open>deterministic_rng.seed\<close> applies to an unsigned
  integer, and the function \<open>distributor\<close> that maps the bounds and a generator state to
  the sample and the advanced state, are parameters.
\<close>

record 'g generators =
  deterministic_rng :: 'g
  lessdeterministic_rng :: 'g

text \<open>The loop of the \<^verbatim>\<open>min==max\<close> branch: \<open>k\<close> more copies of \<open>m\<close>.\<close>

fun push_copies :: "nat \<Rightarrow> double \<Rightarrow> Value list \<Rightarrow> Value list" where
  "push_copies 0 m vec = vec"
| "push_copies (Suc k) m vec = push_copies k m (vec @ [Number m])"

text \<open>The sampling loop: \<open>k\<close> more draws from the generator state \<open>g\<close>.\<close>

fun push_draws ::
  "('g \<Rightarrow> double \<times> 'g) \<Rightarrow> nat \<Rightarrow> 'g \<Rightarrow> Value list \<Rightarrow> Value list \<times> 'g" where
  "push_draws draw 0 g vec = (vec, g)"
| "push_draws draw (Suc k) g vec =
     (case draw g of (x, g') \<Rightarrow> push_draws draw k g' (vec @ [Number x]))"

definition rands_fill ::
  "(double \<Rightarrow> double \<Rightarrow> 'g \<Rightarrow> double \<times> 'g) \<Rightarrow> double \<Rightarrow> double \<Rightarrow> nat \<Rightarrow> bool \<Rightarrow>
   'g generators \<Rightarrow> outcome \<times> 'g generators" where
  "rands_fill distributor min_v max_v numresults deterministic st =
     (if deq min_v max_v then ((Vector (push_copies numresults min_v []), []), st)
      else if deterministic then
        (case push_draws (distributor min_v max_v) numresults (deterministic_rng st) [] of
           (vec, g) \<Rightarrow> ((Vector vec, []), st\<lparr>deterministic_rng := g\<rparr>))
      else
        (case push_draws (distributor min_v max_v) numresults (lessdeterministic_rng st) [] of
           (vec, g) \<Rightarrow> ((Vector vec, []), st\<lparr>lessdeterministic_rng := g\<rparr>)))"

definition builtin_rands ::
  "(nat \<Rightarrow> 'g) \<Rightarrow> (double \<Rightarrow> double \<Rightarrow> 'g \<Rightarrow> double \<times> 'g) \<Rightarrow> 'g generators \<Rightarrow> Value list \<Rightarrow>
   fault + (outcome \<times> 'g generators)" where
  "builtin_rands seed distributor st args =
     (let n = length args in
      if n = 3 \<or> n = 4 then
        if vtype (args ! 0) \<noteq> NUMBER then Inr ((Undefined, []), st)
        else if vtype (args ! 1) \<noteq> NUMBER then Inr ((Undefined, []), st)
        else
          let v0 = toDouble (args ! 0); v1 = toDouble (args ! 1);
              min_v = (if dless v1 v0 then v1 else v0);
              max_v = (if dless v1 v0 then v0 else v1)
          in
          if vtype (args ! 2) \<noteq> NUMBER then Inr ((Undefined, []), st)
          else
            (case static_cast_int (toDouble (args ! 2)) of
               None \<Rightarrow> Inl CastOutOfRange
             | Some c \<Rightarrow>
                 let numresults = nat (if 0 < c then c else 0) in
                 if n > 3 then
                   if vtype (args ! 3) \<noteq> NUMBER then Inr ((Undefined, []), st)
                   else
                     (case static_cast_uint (toDouble (args ! 3)) of
                        None \<Rightarrow> Inl CastOutOfRange
                      | Some s \<Rightarrow>
                          Inr (rands_fill distributor min_v max_v numresults True
                                 (st\<lparr>deterministic_rng := seed s\<rparr>)))
                 else Inr (rands_fill distributor min_v max_v numresults False st))
      else Inr ((Undefined, []), st))"

text \<open>
  A small generator for closed examples: the state is a counter, seeding sets it, and a
  draw returns the counter modulo 4 and increments the counter.
\<close>

definition counter_seed :: "nat \<Rightarrow> nat" where
  "counter_seed s = s"

definition counter_distributor :: "double \<Rightarrow> double \<Rightarrow> nat \<Rightarrow> double \<times> nat" where
  "counter_distributor lo hi g = (lit (real (g mod 4)), Suc g)"

section \<open>min and max\<close>

text \<open>The reduction of a single non-empty vector argument, element 0 as the seed.\<close>

fun min_vector :: "Value \<Rightarrow> Value list \<Rightarrow> Value" where
  "min_vector m [] = m"
| "min_vector m (v # vs) = min_vector (if value_less v m then v else m) vs"

fun max_vector :: "Value \<Rightarrow> Value list \<Rightarrow> Value" where
  "max_vector m [] = m"
| "max_vector m (v # vs) = max_vector (if value_less m v then v else m) vs"

text \<open>
  The scan of the positional arguments 1, 2, ... with the running value \<open>val\<close>; a
  non-Number argument leaves through \<^verbatim>\<open>goto quit\<close>, which returns \<^verbatim>\<open>Value()\<close>.
\<close>

fun min_args :: "double \<Rightarrow> Value list \<Rightarrow> Value" where
  "min_args val [] = Number val"
| "min_args val (v # vs) =
     (if vtype v \<noteq> NUMBER then Undefined
      else min_args (if dless (toDouble v) val then toDouble v else val) vs)"

fun max_args :: "double \<Rightarrow> Value list \<Rightarrow> Value" where
  "max_args val [] = Number val"
| "max_args val (v # vs) =
     (if vtype v \<noteq> NUMBER then Undefined
      else max_args (if dless val (toDouble v) then toDouble v else val) vs)"

definition builtin_min :: "Value list \<Rightarrow> outcome" where
  "builtin_min args =
     (case args of
        [] \<Rightarrow> (Undefined, [])
      | v0 # rest \<Rightarrow>
          if length args = 1 \<and> vtype v0 = VECTOR \<and> toVector v0 \<noteq> []
          then (min_vector (hd (toVector v0)) (tl (toVector v0)), [])
          else if vtype v0 = NUMBER then (min_args (toDouble v0) rest, [])
          else (Undefined, []))"

definition builtin_max :: "Value list \<Rightarrow> outcome" where
  "builtin_max args =
     (case args of
        [] \<Rightarrow> (Undefined, [])
      | v0 # rest \<Rightarrow>
          if length args = 1 \<and> vtype v0 = VECTOR \<and> toVector v0 \<noteq> []
          then (max_vector (hd (toVector v0)) (tl (toVector v0)), [])
          else if vtype v0 = NUMBER then (max_args (toDouble v0) rest, [])
          else (Undefined, []))"

section \<open>sin and cos\<close>







section \<open>The other functions of one or two Numbers\<close>












section \<open>len, log, ln, str, concat\<close>






section \<open>lookup\<close>

text \<open>
  The loop over the rows 1, 2, ... of the table: a row that is not a pair of Numbers is
  passed over, any other row may replace the low and the high bracket.
\<close>

fun lookup_scan ::
  "double \<Rightarrow> Value list \<Rightarrow> double \<times> double \<Rightarrow> double \<times> double \<Rightarrow>
   (double \<times> double) \<times> (double \<times> double)" where
  "lookup_scan p [] low high = (low, high)"
| "lookup_scan p (row # rows) low high =
     (case getVec2 row of
        None \<Rightarrow> lookup_scan p rows low high
      | Some (this_p, this_v) \<Rightarrow>
          lookup_scan p rows
            (if dle this_p p \<and> (dless (fst low) this_p \<or> dless p (fst low))
             then (this_p, this_v) else low)
            (if dle p this_p \<and> (dless this_p (fst high) \<or> dless (fst high) p)
             then (this_p, this_v) else high))"

text \<open>The last line of \<^verbatim>\<open>builtin_lookup\<close>, in the arithmetic of doubles.\<close>

definition interpolate ::
  "(real \<Rightarrow> double) \<Rightarrow> double \<Rightarrow> double \<times> double \<Rightarrow> double \<times> double \<Rightarrow> double" where
  "interpolate rnd p low high =
     (let f = ddiv rnd (dsub rnd p (fst low)) (dsub rnd (fst high) (fst low))
      in dadd rnd (dmul rnd (snd high) f) (dmul rnd (snd low) (dsub rnd (lit 1) f)))"

text \<open>
  \<^verbatim>\<open>getArgValue(1).toVector()[0]\<close> is read with no test of the size of the vector: on an
  empty vector the read is beyond its end.
\<close>

definition builtin_lookup :: "(real \<Rightarrow> double) \<Rightarrow> Value list \<Rightarrow> fault + outcome" where
  "builtin_lookup rnd args =
     (if length args < 2 then Inr (Undefined, [])
      else
        (case getDouble (args ! 0) of
           None \<Rightarrow> Inr (Undefined, [])
         | Some p \<Rightarrow>
             (case toVector (args ! 1) of
                [] \<Rightarrow> Inl OutOfBounds
              | row0 # rows \<Rightarrow>
                  if length (toVector row0) < 2 then Inr (Undefined, [])
                  else
                    (case getVec2 row0 of
                       None \<Rightarrow> Inr (Undefined, [])
                     | Some first \<Rightarrow>
                         (case lookup_scan p rows first first of
                            (low, high) \<Rightarrow>
                              if dle p (fst low) then Inr (Number (snd high), [])
                              else if dle (fst high) p then Inr (Number (snd low), [])
                              else Inr (Number (interpolate rnd p low high), []))))))"

text \<open>
  A table row as the script writes it: the vector \<open>[position, value]\<close>, here with a
  position that is not NaN.
\<close>

definition pair_row :: "extended \<times> double \<Rightarrow> Value" where
  "pair_row r = Vector [Number (Num (fst r)), Number (snd r)]"

definition is_pair_row :: "Value \<Rightarrow> bool" where
  "is_pair_row row = (getVec2 row \<noteq> None)"

text \<open>
  The positions of a table of pairs that a query \<open>p\<close> is compared with: the lowest and
  the highest position, the highest position at or below \<open>p\<close> and the lowest position at
  or above \<open>p\<close>.
\<close>

definition lowest :: "(extended \<times> double) list \<Rightarrow> extended" where
  "lowest rows = Min (set (map fst rows))"

definition highest :: "(extended \<times> double) list \<Rightarrow> extended" where
  "highest rows = Max (set (map fst rows))"

definition below :: "extended \<Rightarrow> (extended \<times> double) list \<Rightarrow> extended" where
  "below p rows = Max (set (filter (\<lambda>q. q \<le> p) (map fst rows)))"

definition above :: "extended \<Rightarrow> (extended \<times> double) list \<Rightarrow> extended" where
  "above p rows = Min (set (filter (\<lambda>q. p \<le> q) (map fst rows)))"

text \<open>
  The invariants of the loop of \<^verbatim>\<open>builtin_lookup\<close>, for the set \<open>A\<close> of the rows read so
  far: the low bracket is one of them, and once a row at or below \<open>p\<close> has been read it is
  a row of the highest position at or below \<open>p\<close>; likewise the high bracket.
\<close>

definition low_bracket :: "extended \<Rightarrow> (extended \<times> double) set \<Rightarrow> extended \<times> double \<Rightarrow> bool" where
  "low_bracket p A low \<longleftrightarrow>
     low \<in> A \<and> ((\<exists>r \<in> A. fst r \<le> p) \<longrightarrow> fst low \<le> p \<and> (\<forall>r \<in> A. fst r \<le> p \<longrightarrow> fst r \<le> fst low))"

definition high_bracket :: "extended \<Rightarrow> (extended \<times> double) set \<Rightarrow> extended \<times> double \<Rightarrow> bool" where
  "high_bracket p A high \<longleftrightarrow>
     high \<in> A \<and> ((\<exists>r \<in> A. p \<le> fst r) \<longrightarrow> p \<le> fst high \<and> (\<forall>r \<in> A. p \<le> fst r \<longrightarrow> fst high \<le> fst r))"

section \<open>search\<close>























section \<open>version, version_num, parent_module\<close>




section \<open>norm\<close>

fun norm_sum :: "(real \<Rightarrow> double) \<Rightarrow> Value list \<Rightarrow> double \<Rightarrow> outcome" where
  "norm_sum rnd [] sum_v = (Number (dsqrt rnd sum_v), [])"
| "norm_sum rnd (v # vs) sum_v =
     (if vtype v = NUMBER
      then norm_sum rnd vs (dadd rnd sum_v (dmul rnd (toDouble v) (toDouble v)))
      else (Undefined, [PRINT ''  WARNING: Incorrect arguments to norm()'']))"

definition builtin_norm :: "(real \<Rightarrow> double) \<Rightarrow> Value list \<Rightarrow> outcome" where
  "builtin_norm rnd args =
     (if length args = 1 \<and> vtype (args ! 0) = VECTOR
      then norm_sum rnd (toVector (args ! 0)) (lit 0)
      else (Undefined, []))"

section \<open>cross\<close>



section \<open>Properties of the comparisons\<close>

lemma dless_NaN [simp]: "dless d NaN = False" "dless NaN d = False"
  by (cases d; simp)+

lemma dle_NaN [simp]: "dle d NaN = False" "dle NaN d = False"
  by (cases d; simp)+

lemma deq_NaN [simp]: "deq d NaN = False" "deq NaN d = False"
  by (cases d; simp)+

lemma deq_Num_refl [simp]: "deq (Num a) (Num a)"
  by simp


lemma vtype_VECTOR_iff: "vtype v = VECTOR \<longleftrightarrow> (\<exists>xs. v = Vector xs)"
  by (cases v) simp_all

section \<open>Properties of min and max\<close>

lemma min_args_fold:
  "min_args (Num x) (map (\<lambda>y. Number (Num y)) ys) = Number (Num (fold min ys x))"
proof (induction ys arbitrary: x)
  case Nil
  show ?case by simp
next
  case (Cons y ys)
  have eq: "(if y < x then y else x) = min y x"
    by (auto simp: min_def)
  have "min_args (Num x) (map (\<lambda>y. Number (Num y)) (y # ys)) =
      min_args (Num (if y < x then y else x)) (map (\<lambda>y. Number (Num y)) ys)"
    by simp
  also have "\<dots> = min_args (Num (min y x)) (map (\<lambda>y. Number (Num y)) ys)"
    by (simp only: eq)
  also have "\<dots> = Number (Num (fold min ys (min y x)))"
    by (rule Cons.IH)
  finally show ?case by simp
qed

lemma max_args_fold:
  "max_args (Num x) (map (\<lambda>y. Number (Num y)) ys) = Number (Num (fold max ys x))"
proof (induction ys arbitrary: x)
  case Nil
  show ?case by simp
next
  case (Cons y ys)
  have eq: "(if x < y then y else x) = max y x"
    by (auto simp: max_def)
  have "max_args (Num x) (map (\<lambda>y. Number (Num y)) (y # ys)) =
      max_args (Num (if x < y then y else x)) (map (\<lambda>y. Number (Num y)) ys)"
    by simp
  also have "\<dots> = max_args (Num (max y x)) (map (\<lambda>y. Number (Num y)) ys)"
    by (simp only: eq)
  also have "\<dots> = Number (Num (fold max ys (max y x)))"
    by (rule Cons.IH)
  finally show ?case by simp
qed

lemma min_args_ordered:
  "min_args (Num x) (map (\<lambda>y. Number (Num y)) ys) = Number (Num (Min (set (x # ys))))"
  by (simp only: min_args_fold Min.set_eq_fold)

lemma max_args_ordered:
  "max_args (Num x) (map (\<lambda>y. Number (Num y)) ys) = Number (Num (Max (set (x # ys))))"
  by (simp only: max_args_fold Max.set_eq_fold)

lemma min_args_non_number:
  "\<exists>v \<in> set vs. vtype v \<noteq> NUMBER \<Longrightarrow> min_args val vs = Undefined"
  by (induction vs arbitrary: val) auto

lemma max_args_non_number:
  "\<exists>v \<in> set vs. vtype v \<noteq> NUMBER \<Longrightarrow> max_args val vs = Undefined"
  by (induction vs arbitrary: val) auto

lemma min_args_NaN_seed:
  "\<forall>v \<in> set vs. vtype v = NUMBER \<Longrightarrow> min_args NaN vs = Number NaN"
  by (induction vs) simp_all

lemma max_args_NaN_seed:
  "\<forall>v \<in> set vs. vtype v = NUMBER \<Longrightarrow> max_args NaN vs = Number NaN"
  by (induction vs) simp_all

lemma min_args_skip_NaN:
  "min_args val (filter (\<lambda>v. v \<noteq> Number NaN) vs) = min_args val vs"
  by (induction vs arbitrary: val) auto

lemma max_args_skip_NaN:
  "max_args val (filter (\<lambda>v. v \<noteq> Number NaN) vs) = max_args val vs"
  by (induction vs arbitrary: val) auto

lemma builtin_min_Number: "builtin_min (Number x # rest) = (min_args x rest, [])"
  by (simp add: builtin_min_def)

lemma builtin_max_Number: "builtin_max (Number x # rest) = (max_args x rest, [])"
  by (simp add: builtin_max_def)

text \<open>
  The call \<^verbatim>\<open>max(1,2,"x",5)\<close> (120 is the code point of x) does not return 2, the best
  value seen before the String: it returns Undefined.
\<close>

theorem max_stops_counterexample:
  "builtin_max [Number (lit 1), Number (lit 2), String [120], Number (lit 5)] = (Undefined, []) \<and>
   builtin_max [Number (lit 1), Number (lit 2), String [120], Number (lit 5)] \<noteq>
     (Number (lit 2), [])"
  by (simp add: builtin_max_def)

text \<open>
  C1, amended. For every call to min or max whose first argument is a Number, the
  positional arguments are scanned from left to right with argument 0 as the seed, and
  the scan stops at the first argument that is not a Number: the result is Undefined
  then. When every argument is a Number and none is NaN, the result is the smallest
  (min) or the largest (max) of them. A NaN seed is never replaced, and a NaN after the
  seed never replaces the running value: with Numbers only, a call with a NaN seed
  returns NaN, and the NaN arguments after the seed can be left out. No diagnostic is
  emitted.
\<close>

theorem min_max_first_number:
  "((\<exists>v \<in> set rest. vtype v \<noteq> NUMBER) \<longrightarrow>
      builtin_min (Number d # rest) = (Undefined, []) \<and>
      builtin_max (Number d # rest) = (Undefined, [])) \<and>
   builtin_min (Number (Num x) # map (\<lambda>y. Number (Num y)) ys) =
     (Number (Num (Min (set (x # ys)))), []) \<and>
   builtin_max (Number (Num x) # map (\<lambda>y. Number (Num y)) ys) =
     (Number (Num (Max (set (x # ys)))), []) \<and>
   ((\<forall>v \<in> set rest. vtype v = NUMBER) \<longrightarrow>
      builtin_min (Number NaN # rest) = (Number NaN, []) \<and>
      builtin_max (Number NaN # rest) = (Number NaN, [])) \<and>
   builtin_min (Number d # filter (\<lambda>v. v \<noteq> Number NaN) rest) = builtin_min (Number d # rest) \<and>
   builtin_max (Number d # filter (\<lambda>v. v \<noteq> Number NaN) rest) = builtin_max (Number d # rest)"
  by (simp only: builtin_min_Number builtin_max_Number min_args_ordered max_args_ordered
      min_args_skip_NaN max_args_skip_NaN)
     (simp add: min_args_non_number max_args_non_number min_args_NaN_seed max_args_NaN_seed)

text \<open>
  The theorem at \<^verbatim>\<open>min(3,1,2)\<close>, \<^verbatim>\<open>max(3,1,undef,7)\<close>, \<^verbatim>\<open>max(0/0,5)\<close> and \<^verbatim>\<open>max(5,0/0)\<close>.
\<close>

theorem min_max_first_number_witness:
  "builtin_min [Number (lit 3), Number (lit 1), Number (lit 2)] = (Number (lit 1), []) \<and>
   builtin_max [Number (lit 3), Number (lit 1), Undefined, Number (lit 7)] = (Undefined, []) \<and>
   builtin_max [Number NaN, Number (lit 5)] = (Number NaN, []) \<and>
   builtin_max [Number (lit 5), Number NaN] = builtin_max [Number (lit 5)]"
proof -
  have "builtin_min [Number (lit 3), Number (lit 1), Number (lit 2)] = (Number (lit 1), [])"
    using min_max_first_number [of "[]" NaN "Finite 3" "[Finite 1, Finite 2]"]
    by (simp add: lit_def)
  moreover have
    "builtin_max [Number (lit 3), Number (lit 1), Undefined, Number (lit 7)] = (Undefined, [])"
    using min_max_first_number
      [of "[Number (lit 1), Undefined, Number (lit 7)]" "lit 3" "Finite 0" "[]"]
    by simp
  moreover have "builtin_max [Number NaN, Number (lit 5)] = (Number NaN, [])"
    using min_max_first_number [of "[Number (lit 5)]" NaN "Finite 0" "[]"]
    by simp
  moreover have "builtin_max [Number (lit 5), Number NaN] = builtin_max [Number (lit 5)]"
    using min_max_first_number [of "[Number NaN]" "lit 5" "Finite 0" "[]"]
    by simp
  ultimately show ?thesis
    by blast
qed

section \<open>Properties of the rounding of binary64\<close>

lemma pow2_powr: "pow2 e = 2 powr (real_of_int e)"
  by (simp add: pow2_def powr_int)

lemma pow2_pos: "0 < pow2 e"
  by (simp add: pow2_def)

lemma pow2_add: "pow2 (a + b) = pow2 a * pow2 b"
  by (simp add: pow2_powr powr_add)

lemma pow2_mono: "a \<le> b \<Longrightarrow> pow2 a \<le> pow2 b"
  by (simp add: pow2_powr)

lemma pow2_nat: "0 \<le> k \<Longrightarrow> pow2 k = of_int (2 ^ nat k)"
  by (simp add: pow2_def)


lemma exponent_le:
  assumes "x \<noteq> 0"
  shows "pow2 (exponent x) \<le> \<bar>x\<bar>"
proof -
  have "0 < \<bar>x\<bar>" using assms by simp
  then have "2 powr (real_of_int \<lfloor>log 2 \<bar>x\<bar>\<rfloor>) \<le> \<bar>x\<bar>"
    using floor_log_eq_powr_iff [of "\<bar>x\<bar>" 2 "\<lfloor>log 2 \<bar>x\<bar>\<rfloor>"] by simp
  then show ?thesis
    by (simp only: exponent_def pow2_powr)
qed

lemma nearest_even_of_int: "nearest_even (of_int j) = j"
  by (simp add: nearest_even_def)

lemma round_double_representable:
  assumes x: "x = of_int m * pow2 k" and m: "\<bar>m\<bar> < 2 ^ 53" and k: "- 1074 \<le> k"
    and fin: "\<bar>x\<bar> < pow2 1024"
  shows "round_double x = lit x"
proof (cases "x = 0")
  case True
  then show ?thesis by (simp add: round_double_def)
next
  case False
  define E where "E = max (exponent x) (- 1022)"
  define d where "d = k - (E - 52)"
  have d_nonneg: "0 \<le> d"
  proof (rule ccontr)
    assume "\<not> 0 \<le> d"
    then have lt: "k + 53 \<le> E"
      by (simp add: d_def)
    then have "E = exponent x"
      using k by (simp add: E_def max_def split: if_splits)
    then have le: "pow2 E \<le> \<bar>x\<bar>"
      using exponent_le [OF False] by simp
    have "\<bar>x\<bar> = real_of_int \<bar>m\<bar> * pow2 k"
      using pow2_pos [of k] by (simp add: x abs_mult)
    also have "\<dots> < 2 ^ 53 * pow2 k"
    proof -
      have "real_of_int \<bar>m\<bar> < 2 ^ 53"
        using m by (metis of_int_less_iff of_int_numeral of_int_power)
      then show ?thesis
        using pow2_pos [of k] by simp
    qed
    also have "\<dots> = pow2 (k + 53)"
    proof -
      have "pow2 53 = 2 ^ 53"
        by (simp add: pow2_def)
      then show ?thesis
        by (simp only: pow2_add mult.commute)
    qed
    also have "\<dots> \<le> pow2 E"
      using lt by (rule pow2_mono)
    finally show False
      using le by simp
  qed
  have quot: "x / pow2 (E - 52) = of_int (m * 2 ^ nat d)"
  proof -
    have "pow2 k = pow2 d * pow2 (E - 52)"
      using pow2_add [of d "E - 52"] by (simp add: d_def)
    then have "x / pow2 (E - 52) = of_int m * pow2 d"
      using pow2_pos [of "E - 52"] by (simp add: x)
    then show ?thesis
      using pow2_nat [OF d_nonneg] by simp
  qed
  have rebuilt: "of_int (nearest_even (x / pow2 (E - 52))) * pow2 (E - 52) = x"
  proof -
    have "of_int (nearest_even (x / pow2 (E - 52))) = x / pow2 (E - 52)"
      by (simp only: quot nearest_even_of_int)
    then show ?thesis
      using pow2_pos [of "E - 52"] by simp
  qed
  show ?thesis
    unfolding round_double_def Let_def E_def [symmetric]
    using False fin by (simp only: rebuilt if_False) simp
qed

lemma round_double_int:
  "\<bar>m\<bar> < 2 ^ 53 \<Longrightarrow> round_double (of_int m) = lit (of_int m)"
proof -
  assume m: "\<bar>m\<bar> < 2 ^ 53"
  have "\<bar>real_of_int m\<bar> < 2 ^ 53"
    using m by (metis of_int_abs of_int_less_iff of_int_numeral of_int_power)
  moreover have "(2::real) ^ 53 < 2 ^ 1024"
    by (rule power_strict_increasing) simp_all
  ultimately have "\<bar>real_of_int m\<bar> < pow2 1024"
    by (simp add: pow2_def)
  then show ?thesis
    using round_double_representable [of "of_int m" m 0] m by (simp add: pow2_def)
qed


lemma round_double_numeral:
  "(numeral n :: int) < 2 ^ 53 \<Longrightarrow> round_double (numeral n) = lit (numeral n)"
  using round_double_int [of "numeral n"] by simp

lemma round_double_half: "round_double (1 / 2) = lit (1 / 2)"
proof -
  have "\<bar>1 / 2 :: real\<bar> \<le> 2 ^ 10"
    by simp
  moreover have "(2::real) ^ 10 < 2 ^ 1024"
    by (rule power_strict_increasing) simp_all
  ultimately have "\<bar>1 / 2 :: real\<bar> < pow2 1024"
    by (simp add: pow2_def)
  then show ?thesis
    using round_double_representable [of "1 / 2" 1 "- 1"] by (simp add: pow2_def)
qed

lemma round_double_one: "round_double 1 = lit 1"
  using round_double_int [of 1] by simp

lemma exact_interpolation_example:
  "interpolate round_double (lit 1) (lit 0, lit 10) (lit 2, lit 30) = lit 20"
  by (simp add: interpolate_def dsub_def lit_def round_double_numeral [unfolded lit_def]
      round_double_half [unfolded lit_def] round_double_one [unfolded lit_def])

lemma extended_less_simps [simp]:
  "Finite x < Finite y \<longleftrightarrow> x < y"
  "MinusInf < Finite x"
  "Finite x < PlusInf"
  "MinusInf < PlusInf"
  "\<not> a < MinusInf"
  "\<not> PlusInf < a"
  by (cases a; auto simp: less_extended_def)+

section \<open>Properties of norm and of malformed lookup tables\<close>

lemma norm_sum_silent_iff:
  "snd (norm_sum rnd vs acc) \<noteq> [] \<longleftrightarrow> (\<exists>x \<in> set vs. vtype x \<noteq> NUMBER)"
  by (induction vs arbitrary: acc) auto

lemma norm_sum_warning:
  "snd (norm_sum rnd vs acc) \<noteq> [] \<Longrightarrow>
   norm_sum rnd vs acc = (Undefined, [PRINT ''  WARNING: Incorrect arguments to norm()''])"
  by (induction vs arbitrary: acc) (auto split: if_splits)

lemma single_Vector: "length args = 1 \<and> vtype (args ! 0) = VECTOR \<longleftrightarrow> (\<exists>v. args = [Vector v])"
  by (cases args) (auto simp: vtype_VECTOR_iff)

text \<open>
  C10. norm of the empty Vector is the Number 0, the square root of the empty sum, with
  no diagnostic; norm emits a diagnostic exactly when it is called with one Vector that
  has an element that is not a Number, and then the result is Undefined with the warning.
\<close>

theorem norm_empty_and_diagnostic:
  "builtin_norm rnd [Vector []] = (Number (lit 0), []) \<and>
   (snd (builtin_norm rnd args) \<noteq> [] \<longleftrightarrow>
      (\<exists>v. args = [Vector v] \<and> (\<exists>x \<in> set v. vtype x \<noteq> NUMBER))) \<and>
   (snd (builtin_norm rnd args) \<noteq> [] \<longrightarrow>
      builtin_norm rnd args = (Undefined, [PRINT ''  WARNING: Incorrect arguments to norm()'']))"
proof (intro conjI)
  show "builtin_norm rnd [Vector []] = (Number (lit 0), [])"
    by (simp add: builtin_norm_def lit_def)
  show "snd (builtin_norm rnd args) \<noteq> [] \<longleftrightarrow>
      (\<exists>v. args = [Vector v] \<and> (\<exists>x \<in> set v. vtype x \<noteq> NUMBER))"
  proof (cases "length args = 1 \<and> vtype (args ! 0) = VECTOR")
    case True
    then obtain v where v: "args = [Vector v]"
      using single_Vector by blast
    show ?thesis
      by (simp add: v builtin_norm_def norm_sum_silent_iff)
  next
    case False
    then have "\<not> (\<exists>v. args = [Vector v])"
      using single_Vector by blast
    with False show ?thesis
      by (auto simp: builtin_norm_def)
  qed
  show "snd (builtin_norm rnd args) \<noteq> [] \<longrightarrow>
      builtin_norm rnd args = (Undefined, [PRINT ''  WARNING: Incorrect arguments to norm()''])"
    by (auto simp: builtin_norm_def norm_sum_warning)
qed

text \<open>The theorem at \<^verbatim>\<open>norm([3,""])\<close> and at \<^verbatim>\<open>norm([3,4])\<close>.\<close>

theorem norm_empty_and_diagnostic_witness:
  "snd (builtin_norm round_double [Vector [Number (lit 3), String []]]) \<noteq> [] \<and>
   builtin_norm round_double [Vector [Number (lit 3), String []]] =
     (Undefined, [PRINT ''  WARNING: Incorrect arguments to norm()'']) \<and>
   snd (builtin_norm round_double [Vector [Number (lit 3), Number (lit 4)]]) = []"
proof -
  have a: "snd (builtin_norm round_double [Vector [Number (lit 3), String []]]) \<noteq> []"
    using norm_empty_and_diagnostic [of round_double "[Vector [Number (lit 3), String []]]"]
    by simp
  then have b: "builtin_norm round_double [Vector [Number (lit 3), String []]] =
      (Undefined, [PRINT ''  WARNING: Incorrect arguments to norm()''])"
    using norm_empty_and_diagnostic [of round_double "[Vector [Number (lit 3), String []]]"]
    by blast
  have c: "snd (builtin_norm round_double [Vector [Number (lit 3), Number (lit 4)]]) = []"
    using norm_empty_and_diagnostic [of round_double "[Vector [Number (lit 3), Number (lit 4)]]"]
    by simp
  show ?thesis
    using a b c by blast
qed

text \<open>
  C9. The accesses of \<^verbatim>\<open>builtin_lookup\<close> into its second argument are not all within
  bounds: with a Number first, an empty Vector (or a value that is not a Vector, whose
  vector view is empty) as the second argument makes the read of row 0 go beyond the end.
\<close>

theorem lookup_empty_table_out_of_bounds:
  "builtin_lookup rnd [Number (lit 1), Vector []] = Inl OutOfBounds \<and>
   builtin_lookup rnd [Number (lit 1), String [120]] = Inl OutOfBounds"
  by (simp add: builtin_lookup_def)

lemma lookup_scan_filter:
  "lookup_scan p (filter is_pair_row rows) low high = lookup_scan p rows low high"
  by (induction rows arbitrary: low high) (auto simp: is_pair_row_def split: option.splits)

lemma builtin_lookup_rows:
  "builtin_lookup rnd (Number p # Vector (row0 # rows) # extra) =
     (if length (toVector row0) < 2 then Inr (Undefined, [])
      else case getVec2 row0 of
          None \<Rightarrow> Inr (Undefined, [])
        | Some first \<Rightarrow>
           (case lookup_scan p rows first first of
              (low, high) \<Rightarrow>
                 if dle p (fst low) then Inr (Number (snd high), [])
                 else if dle (fst high) p then Inr (Number (snd low), [])
                 else Inr (Number (interpolate rnd p low high), [])))"
  by (simp add: builtin_lookup_def)

lemma getVec2_pair_row: "getVec2 (pair_row r) = Some (Num (fst r), snd r)"
  by (simp add: getVec2_def pair_row_def)

lemma length_pair_row: "length (toVector (pair_row r)) = 2"
  by (simp add: pair_row_def)

text \<open>
  A table whose row 1 is a String: \<^verbatim>\<open>lookup(1, [[0,10],"x",[2,30]])\<close> is 20, not
  Undefined.
\<close>

theorem lookup_malformed_row_counterexample:
  "builtin_lookup round_double
     [Number (lit 1),
      Vector [pair_row (Finite 0, lit 10), String [120], pair_row (Finite 2, lit 30)]] =
     Inr (Number (lit 20), []) \<and>
   getVec2 (String [120]) = None"
proof -
  have "getVec2 (String [120]) = None"
    by (simp add: getVec2_def)
  then show ?thesis
    using exact_interpolation_example
    by (simp add: builtin_lookup_rows length_pair_row getVec2_pair_row lit_def)
qed

text \<open>
  C8, amended. For every call of lookup with a Number and a non-empty table: when row 0
  is not a 2-element vector of Numbers the result is Undefined; a later row that is not a
  2-element vector of Numbers is passed over, the result being that of the table without
  such rows.
\<close>

theorem lookup_malformed_rows:
  "(getVec2 row0 = None \<longrightarrow>
      builtin_lookup rnd (Number p # Vector (row0 # rows) # extra) = Inr (Undefined, [])) \<and>
   builtin_lookup rnd (Number p # Vector (row0 # rows) # extra) =
     builtin_lookup rnd (Number p # Vector (row0 # filter is_pair_row rows) # extra)"
  by (simp add: builtin_lookup_rows lookup_scan_filter cong: option.case_cong)

text \<open>The theorem at a table with a 3-element row 0, and at a table with Undefined as row 1.\<close>

theorem lookup_malformed_rows_witness:
  "getVec2 (Vector [Number (lit 0), Number (lit 10), Number (lit 5)]) = None \<and>
   builtin_lookup round_double
     [Number (lit 1),
      Vector [Vector [Number (lit 0), Number (lit 10), Number (lit 5)],
              pair_row (Finite 2, lit 30)]] =
     Inr (Undefined, []) \<and>
   builtin_lookup round_double
     [Number (lit 1),
      Vector [pair_row (Finite 0, lit 10), Undefined, pair_row (Finite 2, lit 30)]] =
     builtin_lookup round_double
       [Number (lit 1), Vector [pair_row (Finite 0, lit 10), pair_row (Finite 2, lit 30)]]"
proof -
  have a: "getVec2 (Vector [Number (lit 0), Number (lit 10), Number (lit 5)]) = None"
    by (simp add: getVec2_def)
  have f: "filter is_pair_row [Undefined, pair_row (Finite 2, lit 30)] =
      [pair_row (Finite 2, lit 30)]"
    by (simp add: is_pair_row_def getVec2_def pair_row_def)
  have b: "builtin_lookup round_double
      [Number (lit 1),
       Vector [Vector [Number (lit 0), Number (lit 10), Number (lit 5)],
               pair_row (Finite 2, lit 30)]] =
     Inr (Undefined, [])"
    using a lookup_malformed_rows
      [of "Vector [Number (lit 0), Number (lit 10), Number (lit 5)]" round_double "lit 1"
        "[pair_row (Finite 2, lit 30)]" "[]"]
    by blast
  have c: "builtin_lookup round_double
      [Number (lit 1),
       Vector [pair_row (Finite 0, lit 10), Undefined, pair_row (Finite 2, lit 30)]] =
     builtin_lookup round_double
       [Number (lit 1), Vector [pair_row (Finite 0, lit 10), pair_row (Finite 2, lit 30)]]"
    using lookup_malformed_rows
      [of "pair_row (Finite 0, lit 10)" round_double "lit 1"
        "[Undefined, pair_row (Finite 2, lit 30)]" "[]"]
    by (simp only: f)
  show ?thesis
    using a b c by blast
qed

section \<open>Properties of rands\<close>

lemma push_copies_replicate: "push_copies k m vec = vec @ replicate k (Number m)"
  by (induction k arbitrary: vec) (simp_all add: replicate_app_Cons_same)

lemma rands_fill_equal:
  "deq lo hi \<Longrightarrow>
   rands_fill distributor lo hi numresults deterministic st =
     ((Vector (replicate numresults (Number lo)), []), st)"
  by (simp add: rands_fill_def push_copies_replicate)

lemma rands_fill_deterministic:
  "fst (rands_fill distributor lo hi k True (st\<lparr>deterministic_rng := g\<rparr>)) =
   fst (rands_fill distributor lo hi k True (st'\<lparr>deterministic_rng := g\<rparr>))"
  by (simp add: rands_fill_def split: prod.splits)

lemma deq_not_dless: "deq a b \<Longrightarrow> \<not> dless b a"
  by (cases a; cases b) auto

text \<open>
  \<^verbatim>\<open>rands(2,2,3000000000)\<close> and \<^verbatim>\<open>rands(1,1,3,-5)\<close>: the count does not fit \<^verbatim>\<open>int\<close>, the seed
  does not fit \<^verbatim>\<open>unsigned int\<close>, and the conversion has no defined result; the call does
  not return the copies.
\<close>

theorem rands_count_counterexample:
  "builtin_rands counter_seed counter_distributor
       \<lparr>deterministic_rng = 7, lessdeterministic_rng = 9\<rparr>
       [Number (lit 2), Number (lit 2), Number (lit 3000000000)] = Inl CastOutOfRange \<and>
   builtin_rands counter_seed counter_distributor
       \<lparr>deterministic_rng = 7, lessdeterministic_rng = 9\<rparr>
       [Number (lit 1), Number (lit 1), Number (lit 3), Number (lit (- 5))] = Inl CastOutOfRange"
  by (simp add: builtin_rands_def lit_def trunc_def)

text \<open>
  C7, amended. For every call of rands with Number arguments whose bounds compare
  equal, whose count, truncated, fits \<^verbatim>\<open>int\<close>, and whose seed, when there is one,
  truncated, fits \<^verbatim>\<open>unsigned int\<close>: the result is a Vector of exactly \<open>n\<close> copies of the
  bound, \<open>n\<close> being the count converted to \<^verbatim>\<open>int\<close> and clamped below at 0. The sampler is
  not invoked: the result is the same for every \<open>distributor\<close>, and the generators are
  left as they were, but for the reseeding of the deterministic one when a seed is given.
\<close>

theorem rands_equal_bounds:
  assumes "deq a b" and "static_cast_int count = Some c"
  shows "builtin_rands seed distributor st [Number a, Number b, Number count] =
           Inr ((Vector (replicate (nat (max 0 c)) (Number a)), []), st) \<and>
         (static_cast_uint s = Some u \<longrightarrow>
          builtin_rands seed distributor st [Number a, Number b, Number count, Number s] =
            Inr ((Vector (replicate (nat (max 0 c)) (Number a)), []),
                 st\<lparr>deterministic_rng := seed u\<rparr>))"
  using assms deq_not_dless [OF assms(1)]
  by (simp add: builtin_rands_def rands_fill_equal max_def)

text \<open>The theorem at \<^verbatim>\<open>rands(2,2,3.5)\<close> and \<^verbatim>\<open>rands(2,2,3.5,42)\<close>.\<close>

theorem rands_equal_bounds_witness:
  "deq (lit 2) (lit 2) \<and>
   static_cast_int (lit (7 / 2)) = Some 3 \<and> static_cast_uint (lit 42) = Some 42 \<and>
   builtin_rands counter_seed counter_distributor
       \<lparr>deterministic_rng = 7, lessdeterministic_rng = 9\<rparr>
       [Number (lit 2), Number (lit 2), Number (lit (7 / 2))] =
     Inr ((Vector [Number (lit 2), Number (lit 2), Number (lit 2)], []),
          \<lparr>deterministic_rng = 7, lessdeterministic_rng = 9\<rparr>) \<and>
   builtin_rands counter_seed counter_distributor
       \<lparr>deterministic_rng = 7, lessdeterministic_rng = 9\<rparr>
       [Number (lit 2), Number (lit 2), Number (lit (7 / 2)), Number (lit 42)] =
     Inr ((Vector [Number (lit 2), Number (lit 2), Number (lit 2)], []),
          \<lparr>deterministic_rng = 42, lessdeterministic_rng = 9\<rparr>)"
proof -
  have e: "deq (lit 2) (lit 2)"
    by (simp add: lit_def)
  have c: "static_cast_int (lit (7 / 2)) = Some 3"
    by (simp add: lit_def trunc_def)
  have u: "static_cast_uint (lit 42) = Some 42"
    by (simp add: lit_def trunc_def)
  show ?thesis
    using e c u rands_equal_bounds [OF e c, of counter_seed counter_distributor
        "\<lparr>deterministic_rng = 7, lessdeterministic_rng = 9\<rparr>" "lit 42" 42]
    by (simp add: numeral_3_eq_3 counter_seed_def)
qed

text \<open>
  C6. Two calls of rands with the same four arguments return the same result, whatever
  the states of the two generators before each call: with a seed the output is a
  function of the arguments only.
\<close>

theorem rands_seeded_deterministic:
  assumes "length args = 4"
  shows "map_sum id fst (builtin_rands seed distributor st args) =
         map_sum id fst (builtin_rands seed distributor st' args)"
  using assms rands_fill_deterministic [where st = st and st' = st']
  by (simp add: builtin_rands_def Let_def split: option.splits)

text \<open>\<^verbatim>\<open>rands(0,4,3,42)\<close> with the counter generator, from one state of the generators.\<close>

lemma rands_example:
  "map_sum id fst (builtin_rands counter_seed counter_distributor
       \<lparr>deterministic_rng = 7, lessdeterministic_rng = 9\<rparr>
       [Number (lit 0), Number (lit 4), Number (lit 3), Number (lit 42)]) =
     Inr (Vector [Number (lit 2), Number (lit 3), Number (lit 0)], [])"
  by (simp add: builtin_rands_def rands_fill_def lit_def trunc_def counter_seed_def
      counter_distributor_def numeral_3_eq_3)

text \<open>The theorem carries that result over to another state of the generators.\<close>

theorem rands_seeded_deterministic_witness:
  "length [Number (lit 0), Number (lit 4), Number (lit 3), Number (lit 42)] = 4 \<and>
   map_sum id fst (builtin_rands counter_seed counter_distributor
       \<lparr>deterministic_rng = 100, lessdeterministic_rng = 200\<rparr>
       [Number (lit 0), Number (lit 4), Number (lit 3), Number (lit 42)]) =
     Inr (Vector [Number (lit 2), Number (lit 3), Number (lit 0)], [])"
proof -
  have len: "length [Number (lit 0), Number (lit 4), Number (lit 3), Number (lit 42)] = 4"
    by simp
  show ?thesis
    using len rands_example
      rands_seeded_deterministic [OF len, of counter_seed counter_distributor
        "\<lparr>deterministic_rng = 100, lessdeterministic_rng = 200\<rparr>"
        "\<lparr>deterministic_rng = 7, lessdeterministic_rng = 9\<rparr>"]
    by (simp only: simp_thms)
qed

section \<open>Interpolation by lookup\<close>

text \<open>
  The loop keeps two invariants, one for each bracket, over the rows read so far; a row
  read replaces a bracket exactly when the test of the loop says so.
\<close>

lemma low_bracket_step:
  assumes "low_bracket p A low"
  shows "low_bracket p (insert t A)
           (if fst t \<le> p \<and> (fst low < fst t \<or> p < fst low) then t else low)"
  using assms unfolding low_bracket_def by (auto; force)

lemma high_bracket_step:
  assumes "high_bracket p A high"
  shows "high_bracket p (insert t A)
           (if p \<le> fst t \<and> (fst t < fst high \<or> fst high < p) then t else high)"
  using assms unfolding high_bracket_def by (auto; force)

lemma lookup_scan_pair:
  "lookup_scan (Num p) (pair_row t # rows) (Num (fst low), snd low) (Num (fst high), snd high) =
     lookup_scan (Num p) rows
       (Num (fst (if fst t \<le> p \<and> (fst low < fst t \<or> p < fst low) then t else low)),
        snd (if fst t \<le> p \<and> (fst low < fst t \<or> p < fst low) then t else low))
       (Num (fst (if p \<le> fst t \<and> (fst t < fst high \<or> fst high < p) then t else high)),
        snd (if p \<le> fst t \<and> (fst t < fst high \<or> fst high < p) then t else high))"
  by (auto simp: getVec2_pair_row)

lemma lookup_scan_brackets:
  assumes "low_bracket p A low" and "high_bracket p A high"
  shows "\<exists>low' high'.
     lookup_scan (Num p) (map pair_row rs) (Num (fst low), snd low) (Num (fst high), snd high) =
       ((Num (fst low'), snd low'), (Num (fst high'), snd high')) \<and>
     low_bracket p (A \<union> set rs) low' \<and> high_bracket p (A \<union> set rs) high'"
  using assms
proof (induction rs arbitrary: A low high)
  case Nil
  then show ?case by auto
next
  case (Cons t rs)
  let ?low = "if fst t \<le> p \<and> (fst low < fst t \<or> p < fst low) then t else low"
  let ?high = "if p \<le> fst t \<and> (fst t < fst high \<or> fst high < p) then t else high"
  have "\<exists>low' high'.
     lookup_scan (Num p) (map pair_row rs) (Num (fst ?low), snd ?low) (Num (fst ?high), snd ?high) =
       ((Num (fst low'), snd low'), (Num (fst high'), snd high')) \<and>
     low_bracket p (insert t A \<union> set rs) low' \<and> high_bracket p (insert t A \<union> set rs) high'"
    using low_bracket_step [OF Cons.prems(1)] high_bracket_step [OF Cons.prems(2)]
    by (rule Cons.IH)
  then show ?case
    by (simp only: list.map lookup_scan_pair) simp
qed

lemma lookup_pairs:
  "builtin_lookup rnd (Number (Num p) # Vector (map pair_row (r0 # rs)) # extra) =
     (case lookup_scan (Num p) (map pair_row rs) (Num (fst r0), snd r0) (Num (fst r0), snd r0) of
        (low, high) \<Rightarrow>
          Inr (Number (if dle (Num p) (fst low) then snd high
                       else if dle (fst high) (Num p) then snd low
                       else interpolate rnd (Num p) low high), []))"
  by (simp add: builtin_lookup_rows length_pair_row getVec2_pair_row split: prod.splits)

lemma below_eq:
  assumes "low_bracket p (set rows) low" and "fst low \<le> p"
  shows "below p rows = fst low"
  unfolding below_def
proof (rule Max_eqI)
  show "finite (set (filter (\<lambda>q. q \<le> p) (map fst rows)))" by simp
  show "fst low \<in> set (filter (\<lambda>q. q \<le> p) (map fst rows))"
    using assms by (auto simp: low_bracket_def)
  show "y \<le> fst low" if "y \<in> set (filter (\<lambda>q. q \<le> p) (map fst rows))" for y
    using assms that by (auto simp: low_bracket_def)
qed

lemma above_eq:
  assumes "high_bracket p (set rows) high" and "p \<le> fst high"
  shows "above p rows = fst high"
  unfolding above_def
proof (rule Min_eqI)
  show "finite (set (filter (\<lambda>q. p \<le> q) (map fst rows)))" by simp
  show "fst high \<in> set (filter (\<lambda>q. p \<le> q) (map fst rows))"
    using assms by (auto simp: high_bracket_def)
  show "fst high \<le> y" if "y \<in> set (filter (\<lambda>q. p \<le> q) (map fst rows))" for y
    using assms that by (auto simp: high_bracket_def)
qed

lemma lowest_le: "r \<in> set rows \<Longrightarrow> lowest rows \<le> fst r"
  by (simp add: lowest_def)

lemma highest_ge: "r \<in> set rows \<Longrightarrow> fst r \<le> highest rows"
  by (simp add: highest_def)

lemma lowest_row:
  assumes "rows \<noteq> []"
  shows "\<exists>r \<in> set rows. fst r = lowest rows"
proof -
  have "Min (fst ` set rows) \<in> fst ` set rows"
    using assms by (intro Min_in) simp_all
  then obtain r where "r \<in> set rows" and "Min (fst ` set rows) = fst r"
    by blast
  then show ?thesis
    by (auto simp: lowest_def)
qed

lemma highest_row:
  assumes "rows \<noteq> []"
  shows "\<exists>r \<in> set rows. fst r = highest rows"
proof -
  have "Max (fst ` set rows) \<in> fst ` set rows"
    using assms by (intro Max_in) simp_all
  then obtain r where "r \<in> set rows" and "Max (fst ` set rows) = fst r"
    by blast
  then show ?thesis
    by (auto simp: highest_def)
qed

text \<open>
  \<^verbatim>\<open>lookup(0, [[0/0, 1], [0, 2]])\<close>: a table of two pairs of Numbers with the query at a
  position of the table. Every comparison with the NaN of row 0 is false, so row 0 stays
  the lower bracket, neither clamp applies, and the interpolation gives NaN, not the
  value 2 of the table at 0.
\<close>

theorem lookup_nan_position_counterexample:
  "builtin_lookup round_double
     [Number (lit 0),
      Vector [Vector [Number NaN, Number (lit 1)], Vector [Number (lit 0), Number (lit 2)]]] =
     Inr (Number NaN, [])"
  by (simp add: builtin_lookup_def getVec2_def interpolate_def dsub_def lit_def)

text \<open>
  C4, amended. For every call \<^verbatim>\<open>lookup(p, table)\<close> where \<open>p\<close> is a Number other than NaN
  and \<open>table\<close> is a Vector of pairs of Numbers, in any order, with at least one row and
  no NaN among the positions: the result is a Number \<open>r\<close>; if \<open>p\<close> is at or below the
  lowest position, \<open>r\<close> is a value of the table at the lowest position; if \<open>p\<close> is at or
  above the highest position, \<open>r\<close> is a value of the table at the highest position; if
  \<open>p\<close> is a position of the table, \<open>r\<close> is a value of the table at \<open>p\<close>; otherwise \<open>r\<close>
  is \<open>high_v * f + low_v * (1 - f)\<close> with \<open>f = (p - low_p) / (high_p - low_p)\<close>, each
  operation rounded as the arithmetic of doubles rounds it (\<open>rnd\<close>), where \<open>low_p\<close> is the
  highest position below \<open>p\<close>, \<open>high_p\<close> the lowest position above \<open>p\<close>, and \<open>low_v\<close>,
  \<open>high_v\<close> are values of the table at those positions.
\<close>

theorem lookup_interpolates:
  assumes "rows \<noteq> []"
  shows "\<exists>r. builtin_lookup rnd (Number (Num p) # Vector (map pair_row rows) # extra) =
              Inr (Number r, []) \<and>
           (p \<le> lowest rows \<longrightarrow> (lowest rows, r) \<in> set rows) \<and>
           (highest rows \<le> p \<longrightarrow> (highest rows, r) \<in> set rows) \<and>
           (p \<in> set (map fst rows) \<longrightarrow> (p, r) \<in> set rows) \<and>
           (lowest rows < p \<and> p < highest rows \<and> p \<notin> set (map fst rows) \<longrightarrow>
              (\<exists>low_v high_v.
                 (below p rows, low_v) \<in> set rows \<and> (above p rows, high_v) \<in> set rows \<and>
                 r = interpolate rnd (Num p) (Num (below p rows), low_v)
                       (Num (above p rows), high_v)))"
proof -
  obtain r0 rs where rows: "rows = r0 # rs"
    using assms by (cases rows) auto
  have "low_bracket p {r0} r0" and "high_bracket p {r0} r0"
    by (simp_all add: low_bracket_def high_bracket_def)
  then obtain low high where
    scan: "lookup_scan (Num p) (map pair_row rs) (Num (fst r0), snd r0) (Num (fst r0), snd r0) =
        ((Num (fst low), snd low), (Num (fst high), snd high))"
    and "low_bracket p ({r0} \<union> set rs) low" and "high_bracket p ({r0} \<union> set rs) high"
    using lookup_scan_brackets [of p "{r0}" r0 r0 rs] by blast
  then have L: "low_bracket p (set rows) low" and H: "high_bracket p (set rows) high"
    by (simp_all add: rows)
  have low_in: "low \<in> set rows" and high_in: "high \<in> set rows"
    using L H by (simp_all add: low_bracket_def high_bracket_def)
  have low_max: "fst low \<le> p \<and> fst r \<le> fst low" if "r \<in> set rows" "fst r \<le> p" for r
    using L that unfolding low_bracket_def by blast
  have high_min: "p \<le> fst high \<and> fst high \<le> fst r" if "r \<in> set rows" "p \<le> fst r" for r
    using H that unfolding high_bracket_def by blast
  obtain rl where rl: "rl \<in> set rows" "fst rl = lowest rows"
    using lowest_row [OF assms] by blast
  obtain rh where rh: "rh \<in> set rows" "fst rh = highest rows"
    using highest_row [OF assms] by blast
  define r where "r = (if p \<le> fst low then snd high
                       else if fst high \<le> p then snd low
                       else interpolate rnd (Num p) (Num (fst low), snd low)
                              (Num (fst high), snd high))"
  have res: "builtin_lookup rnd (Number (Num p) # Vector (map pair_row rows) # extra) =
      Inr (Number r, [])"
  proof -
    have "builtin_lookup rnd (Number (Num p) # Vector (map pair_row (r0 # rs)) # extra) =
        (case ((Num (fst low), snd low), (Num (fst high), snd high)) of
           (low, high) \<Rightarrow>
             Inr (Number (if dle (Num p) (fst low) then snd high
                          else if dle (fst high) (Num p) then snd low
                          else interpolate rnd (Num p) low high), []))"
      by (simp only: lookup_pairs scan)
    then show ?thesis
      by (simp add: rows r_def)
  qed
  have at_lowest: "(lowest rows, r) \<in> set rows" if "p \<le> lowest rows"
  proof -
    have all: "p \<le> fst x" if "x \<in> set rows" for x
      using lowest_le [OF that] \<open>p \<le> lowest rows\<close> by simp
    have "fst high \<le> fst rl" and "p \<le> fst low"
      using high_min [OF rl(1) all [OF rl(1)]] all [OF low_in] by simp_all
    moreover have "lowest rows \<le> fst high"
      using lowest_le [OF high_in] .
    ultimately have "fst high = lowest rows" and "r = snd high"
      using rl(2) by (simp_all add: r_def)
    then show ?thesis
      using high_in by (metis prod.collapse)
  qed
  have at_highest: "(highest rows, r) \<in> set rows" if "highest rows \<le> p"
  proof -
    have all: "fst x \<le> p" if "x \<in> set rows" for x
      using highest_ge [OF that] \<open>highest rows \<le> p\<close> by simp
    have low_hi: "fst low = highest rows"
      using low_max [OF rh(1) all [OF rh(1)]] highest_ge [OF low_in] rh(2) by simp
    show ?thesis
    proof (cases "p \<le> fst low")
      case True
      then have "p = fst low"
        using all [OF low_in] by simp
      then have "fst high = highest rows"
        using high_min [OF low_in] highest_ge [OF high_in] low_hi by simp
      moreover have "r = snd high"
        using True by (simp add: r_def)
      ultimately show ?thesis
        using high_in by (metis prod.collapse)
    next
      case False
      then have "r = snd low"
        using all [OF high_in] by (simp add: r_def)
      then show ?thesis
        using low_in low_hi by (metis prod.collapse)
    qed
  qed
  have at_position: "(p, r) \<in> set rows" if pos: "p \<in> set (map fst rows)"
  proof -
    obtain x where x: "x \<in> set rows" "fst x = p"
      using pos by auto
    have "fst low = p" and "fst high = p"
      using low_max [OF x(1)] high_min [OF x(1)] x(2) by (auto intro: order_antisym)
    then have "r = snd high" and "fst high = p"
      by (simp_all add: r_def)
    then show ?thesis
      using high_in by (metis prod.collapse)
  qed
  have between: "\<exists>low_v high_v.
      (below p rows, low_v) \<in> set rows \<and> (above p rows, high_v) \<in> set rows \<and>
      r = interpolate rnd (Num p) (Num (below p rows), low_v) (Num (above p rows), high_v)"
    if "lowest rows < p" "p < highest rows" "p \<notin> set (map fst rows)"
  proof -
    have "fst low \<le> p" and "p \<le> fst high"
      using low_max [OF rl(1)] high_min [OF rh(1)] rl(2) rh(2) that by simp_all
    moreover have "fst low \<noteq> p" and "fst high \<noteq> p"
      using that(3) low_in high_in by auto
    ultimately have lt: "fst low < p" "p < fst high"
      by simp_all
    have b: "below p rows = fst low" and a: "above p rows = fst high"
      using below_eq [OF L] above_eq [OF H] lt by simp_all
    have "\<not> p \<le> fst low" and "\<not> fst high \<le> p"
      using lt by (simp_all add: not_le)
    then have "r = interpolate rnd (Num p) (Num (fst low), snd low) (Num (fst high), snd high)"
      by (simp add: r_def)
    moreover have "(fst low, snd low) \<in> set rows" and "(fst high, snd high) \<in> set rows"
      using low_in high_in by simp_all
    ultimately show ?thesis
      unfolding a b by blast
  qed
  show ?thesis
    using res at_lowest at_highest at_position between by blast
qed

text \<open>
  The theorem at \<^verbatim>\<open>lookup(1, [[2,30],[0,10]])\<close>, an unsorted table queried between its
  positions, and at \<^verbatim>\<open>lookup(1/0, [[2,30],[0,10]])\<close>, above the highest position, in
  the rounding of binary64.
\<close>

theorem lookup_interpolates_witness:
  "builtin_lookup round_double
     [Number (lit 1), Vector [pair_row (Finite 2, lit 30), pair_row (Finite 0, lit 10)]] =
     Inr (Number (lit 20), []) \<and>
   builtin_lookup round_double
     [Number (Num PlusInf), Vector [pair_row (Finite 2, lit 30), pair_row (Finite 0, lit 10)]] =
     Inr (Number (lit 30), [])"
proof -
  let ?rows = "[(Finite 2, lit 30), (Finite 0, lit 10)]"
  have ne: "?rows \<noteq> []"
    by simp
  have lo: "lowest ?rows = Finite 0" and hi: "highest ?rows = Finite 2"
    by (simp_all add: lowest_def highest_def)
  have be: "below (Finite 1) ?rows = Finite 0" and ab: "above (Finite 1) ?rows = Finite 2"
    by (simp_all add: below_def above_def)
  have mem: "(q, v) \<in> set ?rows \<longleftrightarrow> q = Finite 2 \<and> v = lit 30 \<or> q = Finite 0 \<and> v = lit 10"
    for q v
    by auto
  obtain r where r: "builtin_lookup round_double
        (Number (Num (Finite 1)) # Vector (map pair_row ?rows) # []) = Inr (Number r, [])"
    and mid: "lowest ?rows < Finite 1 \<and> Finite 1 < highest ?rows \<and>
        Finite 1 \<notin> set (map fst ?rows) \<longrightarrow>
        (\<exists>low_v high_v.
           (below (Finite 1) ?rows, low_v) \<in> set ?rows \<and>
           (above (Finite 1) ?rows, high_v) \<in> set ?rows \<and>
           r = interpolate round_double (Num (Finite 1)) (Num (below (Finite 1) ?rows), low_v)
                 (Num (above (Finite 1) ?rows), high_v))"
    using lookup_interpolates [OF ne, of round_double "Finite 1" "[]"] by blast
  have "lowest ?rows < Finite 1 \<and> Finite 1 < highest ?rows \<and> Finite 1 \<notin> set (map fst ?rows)"
    unfolding lo hi by simp
  then obtain low_v high_v where "(Finite 0, low_v) \<in> set ?rows"
    and "(Finite 2, high_v) \<in> set ?rows"
    and "r = interpolate round_double (Num (Finite 1)) (Num (Finite 0), low_v)
           (Num (Finite 2), high_v)"
    using mid unfolding be ab by blast
  then have "r = interpolate round_double (lit 1) (lit 0, lit 10) (lit 2, lit 30)"
    unfolding mem by (simp add: lit_def)
  then have first: "builtin_lookup round_double
     [Number (lit 1), Vector [pair_row (Finite 2, lit 30), pair_row (Finite 0, lit 10)]] =
     Inr (Number (lit 20), [])"
    using r by (simp add: exact_interpolation_example [unfolded lit_def] lit_def)
  obtain r' where r': "builtin_lookup round_double
        (Number (Num PlusInf) # Vector (map pair_row ?rows) # []) = Inr (Number r', [])"
    and top: "highest ?rows \<le> PlusInf \<longrightarrow> (highest ?rows, r') \<in> set ?rows"
    using lookup_interpolates [OF ne, of round_double PlusInf "[]"] by blast
  have "highest ?rows \<le> PlusInf"
    unfolding hi by simp
  then have "(Finite 2, r') \<in> set ?rows"
    using top unfolding hi by blast
  then have "r' = lit 30"
    unfolding mem by simp
  then have "builtin_lookup round_double
     [Number (Num PlusInf), Vector [pair_row (Finite 2, lit 30), pair_row (Finite 0, lit 10)]] =
     Inr (Number (lit 30), [])"
    using r' by simp
  then show ?thesis
    using first by blast
qed

section \<open>The shape of the result of search\<close>































section \<open>The argument reduction of sin and cos\<close>



























section \<open>Arity and type mismatches\<close>






























end
